theory Spec2Isabelle
  imports Main
begin

section \<open>Data model of the key-range paging engine\<close>

text \<open>
  The embedding follows \<^verbatim>\<open>keyrange-paging-engine.ts\<close>. JavaScript values that
  travel through the engine untyped (\<^verbatim>\<open>any\<close>: keys, records, and the absent
  value) are one datatype: \<open>JNull\<close> stands for both \<^verbatim>\<open>null\<close> and
  \<^verbatim>\<open>undefined\<close> (the engine only ever tests them with \<^verbatim>\<open>!= null\<close>
  and \<^verbatim>\<open>== null\<close>, which do not tell them apart), \<open>JKey\<close> is a key and
  \<open>JRec\<close> a stored record. Promises are modelled by their resolved values: every
  storage call of the engine is awaited before the next one is issued.

  Field names are the source's, except where the name is taken: the query's
  \<^verbatim>\<open>values\<close> is \<open>wantValues\<close>, its \<^verbatim>\<open>range\<close> is \<open>keyRange\<close>,
  the index description's \<^verbatim>\<open>unique\<close> is \<open>isUnique\<close> and the virtual index's
  \<^verbatim>\<open>index\<close> is \<open>indexSpec\<close>; the response's \<^verbatim>\<open>pageToken\<close> is
  \<open>nextPageToken\<close>.
\<close>

datatype ('k, 'v) jsval = JNull | JKey 'k | JRec 'v

text \<open>The entry a cursor stands on: \<^verbatim>\<open>cursor.key\<close>, \<^verbatim>\<open>cursor.primaryKey\<close>
  and \<^verbatim>\<open>cursor.value\<close>.\<close>

record ('k, 'v) entry =
  ekey :: "('k, 'v) jsval"
  eprimaryKey :: "('k, 'v) jsval"
  evalue :: "('k, 'v) jsval"

text \<open>
  Modelled from the spec: the cursor of the storage layer (\<^verbatim>\<open>L1-dbcore\<close>, not part
  of the engine's file). A cursor is the sequence of entries it has not yet delivered to a
  callback, in iteration order; the head is the entry the next callback sees.
\<close>

type_synonym ('k, 'v) cursor = "('k, 'v) entry list"

text \<open>\<^verbatim>\<open>KeyRangePageToken\<close>: a tagged union of three variants. A cursor token can
  hold \<^verbatim>\<open>null\<close> (no cursor); a last-key token holds \<^verbatim>\<open>lastKey\<close> and
  \<^verbatim>\<open>lastPrimaryKey\<close>, the latter \<open>JNull\<close> when absent.\<close>

datatype ('k, 'v) token =
    CursorToken "('k, 'v) cursor option"
  | OffsetToken int
  | LastKeyToken "('k, 'v) jsval" "('k, 'v) jsval"

record ('k, 'v) keyrange =
  lower :: "('k, 'v) jsval"
  lowerOpen :: bool
  upper :: "('k, 'v) jsval"
  upperOpen :: bool

text \<open>\<^verbatim>\<open>PagableKeyRangeQuery\<close>. Optional flags are \<open>False\<close> when absent.\<close>

record ('k, 'v) query =
  trans :: nat
  table :: string
  index :: string
  keyRange :: "('k, 'v) keyrange"
  wantValues :: bool
  limit :: int
  unique :: bool
  reverse :: bool
  wantPageToken :: bool
  pageToken :: "('k, 'v) token option"

text \<open>\<^verbatim>\<open>QueryRangeResponse\<close>; an absent \<^verbatim>\<open>partial\<close> is \<open>False\<close>.\<close>

record ('k, 'v) response =
  result :: "('k, 'v) jsval list"
  nextPageToken :: "('k, 'v) token option"
  partial :: bool

text \<open>The index metadata the engine reads: \<^verbatim>\<open>idx.index\<close> and \<^verbatim>\<open>idx\<close>.\<close>

record indexSpec =
  multiEntry :: bool
  isUnique :: bool
  isPrimaryKey :: bool

record ('k, 'v) virtualIndex =
  keyLength :: nat
  indexSpec :: indexSpec
  extractKey :: "('k, 'v) jsval \<Rightarrow> ('k, 'v) jsval"

text \<open>The storage calls the engine issues, recorded in the order they are made.\<close>

datatype ('k, 'v) call =
    OpenCursor "('k, 'v) query"
  | GetAll "('k, 'v) query"
  | Get nat string "('k, 'v) jsval list"

text \<open>
  The wrapped layer \<^verbatim>\<open>next\<close> (a \<^verbatim>\<open>VirtualIndexCore\<close>), with the members the
  engine uses. \<open>tableIndexLookup next t i\<close> is
  \<^verbatim>\<open>next.tableIndexLookup[t][i][0]\<close>; \<open>openCursor\<close> returns \<open>None\<close> for
  \<^verbatim>\<open>null\<close>; \<open>get next tr t ks\<close> is \<^verbatim>\<open>next.get({trans: tr, table: t, keys: ks})\<close>.
\<close>

record ('k, 'v) core =
  tableIndexLookup :: "string \<Rightarrow> string \<Rightarrow> ('k, 'v) virtualIndex"
  cmp :: "('k, 'v) jsval \<Rightarrow> ('k, 'v) jsval \<Rightarrow> int"
  getAll :: "('k, 'v) query \<Rightarrow> ('k, 'v) jsval list"
  openCursor :: "('k, 'v) query \<Rightarrow> ('k, 'v) cursor option"
  get :: "nat \<Rightarrow> string \<Rightarrow> ('k, 'v) jsval list \<Rightarrow> ('k, 'v) jsval list"

text \<open>\<^verbatim>\<open>KeyRangePagingCore\<close>: the wrapped layer's members and \<^verbatim>\<open>queryRange\<close>.\<close>

record ('k, 'v) pagingCore = "('k, 'v) core" +
  queryRange :: "('k, 'v) query \<Rightarrow> ('k, 'v) response \<times> ('k, 'v) call list"

section \<open>The cursor protocol\<close>

text \<open>What a callback tells the cursor: \<^verbatim>\<open>cursor.continue()\<close> or
  \<^verbatim>\<open>cursor.stop(r)\<close>.\<close>

datatype 'r action = Continue | Stop 'r

text \<open>
  Modelled from the spec: \<^verbatim>\<open>cursor.start(callback)\<close> of the storage layer. The
  callback runs on each entry, with the state its closure holds (here the result array),
  until it stops or the entries run out; the promise resolves with the stop value, or
  with \<^verbatim>\<open>undefined\<close> (\<open>None\<close>) on exhaustion. A cursor that was stopped on an
  entry resumes after that entry, as the spec's resolver requires when it seeks to a
  position, stops there and starts again to read what follows.
\<close>

fun start ::
  "(('k, 'v) entry \<Rightarrow> 's \<Rightarrow> 's \<times> 'r action) \<Rightarrow> ('k, 'v) cursor \<Rightarrow> 's
     \<Rightarrow> 'r option \<times> ('k, 'v) cursor \<times> 's" where
  "start cb [] s = (None, [], s)"
| "start cb (e # es) s =
     (case cb e s of
        (s', Continue) \<Rightarrow> start cb es s'
      | (s', Stop r) \<Rightarrow> (Some r, es, s'))"

text \<open>
  Modelled from the spec: \<^verbatim>\<open>OffsetCursor(cursor, n)\<close> skips \<open>n\<close> entries before
  the first callback fires. The skip is lazy in the source; over a store that does not
  change between the wrap and the first step the entries delivered are the same.
\<close>

definition OffsetCursor :: "('k, 'v) cursor option \<Rightarrow> int \<Rightarrow> ('k, 'v) cursor option" where
  "OffsetCursor c n = map_option (drop (nat n)) c"

text \<open>
  Modelled from the spec: \<^verbatim>\<open>cursor.start(() => cursor.stop(), key, primaryKey)\<close>
  seeks to the entry at the compound position (key, primary key), by the store's
  comparator, and stops on it; the entries left are those after it.
\<close>

definition seekPast ::
  "(('k, 'v) jsval \<Rightarrow> ('k, 'v) jsval \<Rightarrow> int) \<Rightarrow> ('k, 'v) jsval \<Rightarrow> ('k, 'v) jsval
     \<Rightarrow> ('k, 'v) cursor \<Rightarrow> ('k, 'v) cursor" where
  "seekPast c k pk es =
     drop 1 (dropWhile (\<lambda>e. \<not> (c (ekey e) k = 0 \<and> c (eprimaryKey e) pk = 0)) es)"

section \<open>The engine\<close>

text \<open>JavaScript array indexing \<^verbatim>\<open>xs[i]\<close>: \<^verbatim>\<open>undefined\<close> out of range.\<close>

definition jsIndex :: "('k, 'v) jsval list \<Rightarrow> int \<Rightarrow> ('k, 'v) jsval" where
  "jsIndex xs i = (if 0 \<le> i \<and> i < int (length xs) then xs ! nat i else JNull)"

text \<open>Reading \<^verbatim>\<open>lastKey\<close> and \<^verbatim>\<open>lastPrimaryKey\<close> off a token: absent on the
  other variants.\<close>

fun tokLastKey :: "('k, 'v) token \<Rightarrow> ('k, 'v) jsval" where
  "tokLastKey (LastKeyToken k pk) = k"
| "tokLastKey _ = JNull"

fun tokLastPrimaryKey :: "('k, 'v) token \<Rightarrow> ('k, 'v) jsval" where
  "tokLastPrimaryKey (LastKeyToken k pk) = pk"
| "tokLastPrimaryKey _ = JNull"

fun isLastKey :: "('k, 'v) token \<Rightarrow> bool" where
  "isLastKey (LastKeyToken k pk) = True"
| "isLastKey _ = False"

text \<open>The engine's inner \<^verbatim>\<open>openCursor\<close> (lines 47 to 84): the cursor for a query
  and its token, with the storage calls made.\<close>

definition engineOpenCursor ::
  "('k, 'v) core \<Rightarrow> ('k, 'v) query \<Rightarrow> ('k, 'v) cursor option \<times> ('k, 'v) call list" where
  "engineOpenCursor next q =
     (case pageToken q of
        None \<Rightarrow> (openCursor next q, [OpenCursor q])
      | Some (CursorToken c) \<Rightarrow> (c, [])
      | Some (OffsetToken n) \<Rightarrow> (OffsetCursor (openCursor next q) n, [OpenCursor q])
      | Some (LastKeyToken lastKey lastPrimaryKey) \<Rightarrow>
          (let q' = q\<lparr>keyRange :=
                 (if reverse q
                  then (keyRange q)\<lparr>upper := lastKey, upperOpen := False\<rparr>
                  else (keyRange q)\<lparr>lower := lastKey, lowerOpen := False\<rparr>)\<rparr>;
               cursorPromise = openCursor next q'
           in (if lastPrimaryKey = JNull then cursorPromise
               else map_option (seekPast (cmp next) lastKey lastPrimaryKey) cursorPromise,
               [OpenCursor q'])))"

text \<open>The variable \<^verbatim>\<open>useCursor\<close> (lines 90 to 96).\<close>

definition useCursor :: "('k, 'v) core \<Rightarrow> ('k, 'v) query \<Rightarrow> bool" where
  "useCursor next q =
     (let idx = tableIndexLookup next (table q) (index q) in
      (case pageToken q of None \<Rightarrow> False | Some t \<Rightarrow> \<not> isLastKey t)
      \<or> reverse q
      \<or> unique q
      \<or> keyLength idx = 0
      \<or> (limit q < 10 \<and> \<not> wantValues q \<and> \<not> isPrimaryKey (indexSpec idx)))"

text \<open>What a callback pushes: \<^verbatim>\<open>values ? cursor.value : cursor.primaryKey\<close>.\<close>

definition pushed :: "('k, 'v) query \<Rightarrow> ('k, 'v) entry \<Rightarrow> ('k, 'v) jsval" where
  "pushed q e = (if wantValues q then evalue e else eprimaryKey e)"

text \<open>The callback of the cursor path (lines 114 to 120).\<close>

definition iterateCallback ::
  "('k, 'v) query \<Rightarrow> ('k, 'v) entry \<Rightarrow> ('k, 'v) jsval list
     \<Rightarrow> ('k, 'v) jsval list \<times> bool action" where
  "iterateCallback q e res =
     (let res' = res @ [pushed q e] in
      if int (length res') = limit q then (res', Stop True) else (res', Continue))"

text \<open>The cursor path (lines 105 to 123).\<close>

definition cursorIterate ::
  "('k, 'v) core \<Rightarrow> ('k, 'v) query \<Rightarrow> ('k, 'v) response \<times> ('k, 'v) call list" where
  "cursorIterate next q =
     (case engineOpenCursor next q of
        (None, calls) \<Rightarrow> (\<lparr>result = [], nextPageToken = None, partial = False\<rparr>, calls)
      | (Some cursor, calls) \<Rightarrow>
          (case start (iterateCallback q) cursor [] of
             (limitReached, cursor', res) \<Rightarrow>
               (if limitReached = Some True \<and> wantPageToken q
                then (\<lparr>result = res, nextPageToken = Some (CursorToken (Some cursor')),
                       partial = False\<rparr>, calls)
                else (\<lparr>result = res, nextPageToken = None, partial = False\<rparr>, calls))))"

text \<open>
  The object a stopped fallback iteration resolves with: \<^verbatim>\<open>{passed: true}\<close> or
  \<^verbatim>\<open>{lastPrimaryKey: cursor.primaryKey}\<close>. The three properties the engine writes or
  reads are fields; a property that was not written reads as \<open>False\<close> or \<open>JNull\<close>.
\<close>

record ('k, 'v) stopInfo =
  passed :: bool
  lastPrimaryKey :: "('k, 'v) jsval"
  primaryKey :: "('k, 'v) jsval"

text \<open>The callback of the fallback iteration (lines 141 to 150).\<close>

definition fallbackCallback ::
  "('k, 'v) core \<Rightarrow> ('k, 'v) query \<Rightarrow> ('k, 'v) jsval \<Rightarrow> ('k, 'v) entry
     \<Rightarrow> ('k, 'v) jsval list \<Rightarrow> ('k, 'v) jsval list \<times> ('k, 'v) stopInfo action" where
  "fallbackCallback next q lastKey e res =
     (if cmp next (ekey e) lastKey > 0
      then (res, Stop \<lparr>passed = True, lastPrimaryKey = JNull, primaryKey = JNull\<rparr>)
      else (let res' = res @ [pushed q e] in
            if int (length res') < limit q then (res', Continue)
            else (res', Stop \<lparr>passed = False, lastPrimaryKey = eprimaryKey e,
                               primaryKey = JNull\<rparr>)))"

text \<open>The fallback for a last-key token that carries a primary key (lines 137 to 173).\<close>

definition cursorFallback ::
  "('k, 'v) core \<Rightarrow> ('k, 'v) query \<Rightarrow> ('k, 'v) jsval
     \<Rightarrow> ('k, 'v) response \<times> ('k, 'v) call list" where
  "cursorFallback next q lastKey =
     (case engineOpenCursor next q of
        (None, calls) \<Rightarrow> (\<lparr>result = [], nextPageToken = None, partial = False\<rparr>, calls)
      | (Some cursor, calls) \<Rightarrow>
          (case start (fallbackCallback next q lastKey) cursor [] of
             (None, cursor', res) \<Rightarrow>
               (\<lparr>result = res, nextPageToken = None, partial = False\<rparr>, calls)
           | (Some r, cursor', res) \<Rightarrow>
               (if passed r
                then (\<lparr>result = res, nextPageToken = Some (LastKeyToken lastKey JNull),
                       partial = True\<rparr>, calls)
                else if wantPageToken q
                then (\<lparr>result = res,
                       nextPageToken = Some (LastKeyToken lastKey (primaryKey r)),
                       partial = False\<rparr>, calls)
                else (\<lparr>result = res, nextPageToken = None, partial = False\<rparr>, calls))))"

text \<open>The bulk read and the token built from it (lines 187 to 256); \<open>q\<close> is the query
  as adjusted for the inbound token.\<close>

definition bulkScan ::
  "('k, 'v) core \<Rightarrow> ('k, 'v) query \<Rightarrow> ('k, 'v) response \<times> ('k, 'v) call list" where
  "bulkScan next q =
     (let idx = tableIndexLookup next (table q) (index q);
          res = getAll next q
      in if int (length res) < limit q
         then (\<lparr>result = res, nextPageToken = None, partial = False\<rparr>, [GetAll q])
         else if multiEntry (indexSpec idx) \<or> (wantValues q \<and> keyLength idx = 0)
         then (if \<not> wantPageToken q
               then (\<lparr>result = res, nextPageToken = None, partial = False\<rparr>, [GetAll q])
               else (\<lparr>result = res, nextPageToken = Some (OffsetToken (limit q)),
                      partial = False\<rparr>, [GetAll q]))
         else if \<not> wantPageToken q
         then (\<lparr>result = res, nextPageToken = None, partial = False\<rparr>, [GetAll q])
         else (let lastEntry = jsIndex res (limit q - 1) in
               if wantValues q
               then (let primaryKeyIdx = tableIndexLookup next (table q) '':id'' in
                     (\<lparr>result = res,
                       nextPageToken = Some (LastKeyToken (extractKey idx lastEntry)
                         (if isUnique (indexSpec idx) then JNull
                          else extractKey primaryKeyIdx lastEntry)),
                       partial = False\<rparr>, [GetAll q]))
               else if isPrimaryKey (indexSpec idx)
               then (\<lparr>result = res, nextPageToken = Some (LastKeyToken lastEntry JNull),
                      partial = False\<rparr>, [GetAll q])
               else (let v = jsIndex (get next (trans q) (table q) [lastEntry]) 0 in
                     (\<lparr>result = res,
                       nextPageToken = Some (LastKeyToken lastEntry (extractKey idx v)),
                       partial = False\<rparr>,
                      [GetAll q, Get (trans q) (table q) [lastEntry]]))))"

text \<open>The query handed to the bulk read for a last-key token without a primary key
  (lines 176 to 183).\<close>

definition afterLastKey :: "('k, 'v) query \<Rightarrow> ('k, 'v) jsval \<Rightarrow> ('k, 'v) query" where
  "afterLastKey q lastKey = q\<lparr>keyRange := (keyRange q)\<lparr>lower := lastKey, lowerOpen := True\<rparr>\<rparr>"

text \<open>\<^verbatim>\<open>queryRange\<close> (lines 86 to 257).\<close>

definition engineQueryRange ::
  "('k, 'v) core \<Rightarrow> ('k, 'v) query \<Rightarrow> ('k, 'v) response \<times> ('k, 'v) call list" where
  "engineQueryRange next q =
     (if limit q = 0
      then (if wantPageToken q
            then (case engineOpenCursor next q of
                    (cursor, calls) \<Rightarrow>
                      (\<lparr>result = [], nextPageToken = Some (CursorToken cursor),
                        partial = False\<rparr>, calls))
            else (\<lparr>result = [], nextPageToken = None, partial = False\<rparr>, []))
      else if useCursor next q then cursorIterate next q
      else (case pageToken q of
              None \<Rightarrow> bulkScan next q
            | Some pt \<Rightarrow>
                (if tokLastPrimaryKey pt = JNull
                 then bulkScan next (afterLastKey q (tokLastKey pt))
                 else cursorFallback next q (tokLastKey pt))))"

text \<open>
  \<^verbatim>\<open>KeyRangePagingEngine\<close> (lines 38 to 45): the object literal spreads \<^verbatim>\<open>next\<close>,
  adds \<^verbatim>\<open>queryRange\<close>, and defines an \<^verbatim>\<open>openCursor\<close> member that returns
  \<^verbatim>\<open>null\<close>.
\<close>

definition KeyRangePagingEngine :: "('k, 'v) core \<Rightarrow> ('k, 'v) pagingCore" where
  "KeyRangePagingEngine next =
     \<lparr>tableIndexLookup = tableIndexLookup next,
      cmp = cmp next,
      getAll = getAll next,
      openCursor = (\<lambda>q. None),
      get = get next,
      queryRange = engineQueryRange next\<rparr>"

text \<open>The query the bulk read receives when the inbound token, if any, has no primary
  key: the range is untouched without a token and moved past \<^verbatim>\<open>lastKey\<close> with one.\<close>

definition bulkQuery :: "('k, 'v) query \<Rightarrow> ('k, 'v) query" where
  "bulkQuery q = (case pageToken q of None \<Rightarrow> q | Some pt \<Rightarrow> afterLastKey q (tokLastKey pt))"

fun isGetAll :: "('k, 'v) call \<Rightarrow> bool" where
  "isGetAll (GetAll q) = True"
| "isGetAll _ = False"

section \<open>A storage layer in memory\<close>

text \<open>
  Modelled from the spec: the storage layer the engine wraps (section 6 of the spec; its
  code is not part of the engine's file). A table's index is the list of its entries in
  ascending order of (key, primary key). \<open>getAll\<close> returns the entries of the range in
  order, at most \<open>limit\<close> of them, as values or primary keys; \<open>openCursor\<close> returns a
  cursor on the first entry of the range, walking it in the direction asked and, when
  \<open>unique\<close> is set, through the first entry of each key only, or \<^verbatim>\<open>null\<close> when the
  range holds no entry; \<open>get\<close> looks records up by primary key; \<open>cmp\<close> orders keys.
\<close>

fun cmpKeys :: "('k::linorder, 'v) jsval \<Rightarrow> ('k, 'v) jsval \<Rightarrow> int" where
  "cmpKeys (JKey a) (JKey b) = (if a < b then - 1 else if b < a then 1 else 0)"
| "cmpKeys _ _ = 0"

text \<open>A bound that is \<open>JNull\<close> is no bound.\<close>

definition inRange :: "('k::linorder, 'v) keyrange \<Rightarrow> ('k, 'v) jsval \<Rightarrow> bool" where
  "inRange r k =
     ((lower r = JNull
        \<or> (if lowerOpen r then 0 < cmpKeys k (lower r) else 0 \<le> cmpKeys k (lower r)))
      \<and> (upper r = JNull
        \<or> (if upperOpen r then cmpKeys k (upper r) < 0 else cmpKeys k (upper r) \<le> 0)))"

fun uniqueKeys :: "('k::linorder, 'v) entry list \<Rightarrow> ('k, 'v) entry list" where
  "uniqueKeys (e # e' # es) =
     (if cmpKeys (ekey e) (ekey e') = 0 then uniqueKeys (e # es)
      else e # uniqueKeys (e' # es))"
| "uniqueKeys es = es"

definition matching ::
  "('k::linorder, 'v) entry list \<Rightarrow> ('k, 'v) query \<Rightarrow> ('k, 'v) entry list" where
  "matching ents q =
     (let es = filter (\<lambda>e. inRange (keyRange q) (ekey e)) ents;
          es' = (if reverse q then rev es else es)
      in if unique q then uniqueKeys es' else es')"

definition memGetAll ::
  "('k::linorder, 'v) entry list \<Rightarrow> ('k, 'v) query \<Rightarrow> ('k, 'v) jsval list" where
  "memGetAll ents q =
     (let xs = map (pushed q) (filter (\<lambda>e. inRange (keyRange q) (ekey e)) ents)
      in if 0 < limit q then take (nat (limit q)) xs else xs)"

definition memOpenCursor ::
  "('k::linorder, 'v) entry list \<Rightarrow> ('k, 'v) query \<Rightarrow> ('k, 'v) cursor option" where
  "memOpenCursor ents q = (case matching ents q of [] \<Rightarrow> None | e # es \<Rightarrow> Some (e # es))"

definition memGet :: "('k::linorder, 'v) entry list \<Rightarrow> ('k, 'v) jsval \<Rightarrow> ('k, 'v) jsval" where
  "memGet ents k =
     (case find (\<lambda>e. cmpKeys (eprimaryKey e) k = 0) ents of
        None \<Rightarrow> JNull
      | Some e \<Rightarrow> evalue e)"

definition memCore ::
  "('k::linorder, 'v) virtualIndex \<Rightarrow> ('k, 'v) virtualIndex \<Rightarrow> ('k, 'v) entry list
     \<Rightarrow> ('k, 'v) core" where
  "memCore idx pkIdx ents =
     \<lparr>tableIndexLookup = (\<lambda>t i. if i = '':id'' then pkIdx else idx),
      cmp = cmpKeys,
      getAll = memGetAll ents,
      openCursor = memOpenCursor ents,
      get = (\<lambda>tr t ks. map (memGet ents) ks)\<rparr>"

section \<open>Paging through a range\<close>

text \<open>A single unbounded scan of the query's range: everything a fresh cursor of the
  wrapped layer delivers, in its order.\<close>

definition fullScan :: "('k, 'v) core \<Rightarrow> ('k, 'v) query \<Rightarrow> ('k, 'v) jsval list" where
  "fullScan next q =
     (case openCursor next (q\<lparr>pageToken := None\<rparr>) of
        None \<Rightarrow> []
      | Some es \<Rightarrow> map (pushed q) es)"

text \<open>
  The caller's loop: query, then query again with the token of the previous response,
  until a response has no token; the pages are concatenated. The first argument bounds
  the number of calls; \<open>None\<close> means the bound was reached with a token still pending.
\<close>

fun paginate ::
  "nat \<Rightarrow> ('k, 'v) core \<Rightarrow> ('k, 'v) query \<Rightarrow> ('k, 'v) jsval list option" where
  "paginate 0 next q = None"
| "paginate (Suc n) next q =
     (let r = fst (engineQueryRange next q) in
      case nextPageToken r of
        None \<Rightarrow> Some (result r)
      | Some t \<Rightarrow>
          map_option (\<lambda>rest. result r @ rest) (paginate n next (q\<lparr>pageToken := Some t\<rparr>)))"

section \<open>Example tables\<close>

text \<open>A table \<^verbatim>\<open>people\<close> of records (id, age), with the primary key \<^verbatim>\<open>id\<close> and
  an index on \<^verbatim>\<open>age\<close>. \<open>person i a\<close> is the entry of record \<open>(i, a)\<close> in the
  age index.\<close>

definition person :: "int \<Rightarrow> int \<Rightarrow> (int, int \<times> int) entry" where
  "person i a = \<lparr>ekey = JKey a, eprimaryKey = JKey i, evalue = JRec (i, a)\<rparr>"

fun recAge :: "(int, int \<times> int) jsval \<Rightarrow> (int, int \<times> int) jsval" where
  "recAge (JRec (i, a)) = JKey a"
| "recAge _ = JNull"

fun recId :: "(int, int \<times> int) jsval \<Rightarrow> (int, int \<times> int) jsval" where
  "recId (JRec (i, a)) = JKey i"
| "recId _ = JNull"

definition ageIndex :: "(int, int \<times> int) virtualIndex" where
  "ageIndex =
     \<lparr>keyLength = 1,
      indexSpec = \<lparr>multiEntry = False, isUnique = False, isPrimaryKey = False\<rparr>,
      extractKey = recAge\<rparr>"

definition uniqueAgeIndex :: "(int, int \<times> int) virtualIndex" where
  "uniqueAgeIndex =
     \<lparr>keyLength = 1,
      indexSpec = \<lparr>multiEntry = False, isUnique = True, isPrimaryKey = False\<rparr>,
      extractKey = recAge\<rparr>"

definition multiAgeIndex :: "(int, int \<times> int) virtualIndex" where
  "multiAgeIndex =
     \<lparr>keyLength = 1,
      indexSpec = \<lparr>multiEntry = True, isUnique = False, isPrimaryKey = False\<rparr>,
      extractKey = recAge\<rparr>"

definition idIndex :: "(int, int \<times> int) virtualIndex" where
  "idIndex =
     \<lparr>keyLength = 1,
      indexSpec = \<lparr>multiEntry = False, isUnique = True, isPrimaryKey = True\<rparr>,
      extractKey = recId\<rparr>"

definition allKeys :: "(int, int \<times> int) keyrange" where
  "allKeys = \<lparr>lower = JNull, lowerOpen = False, upper = JNull, upperOpen = False\<rparr>"

text \<open>Three people of the same age.\<close>

definition twins :: "(int, int \<times> int) core" where
  "twins = memCore ageIndex idIndex [person 1 5, person 2 5, person 3 5]"

text \<open>Two people aged 5 and one aged 7.\<close>

definition siblings :: "(int, int \<times> int) core" where
  "siblings = memCore ageIndex idIndex [person 1 5, person 2 5, person 3 7]"

text \<open>The same three entries under an index declared multi-valued.\<close>

definition tagged :: "(int, int \<times> int) core" where
  "tagged = memCore multiAgeIndex idIndex [person 1 5, person 2 5, person 3 7]"

text \<open>Twelve people of distinct ages, under a non-unique and under a unique age index.\<close>

definition rosterEntries :: "(int, int \<times> int) entry list" where
  "rosterEntries =
     [person 1 21, person 2 22, person 3 23, person 4 24, person 5 25, person 6 26,
      person 7 27, person 8 28, person 9 29, person 10 30, person 11 31, person 12 32]"

definition roster :: "(int, int \<times> int) core" where
  "roster = memCore ageIndex idIndex rosterEntries"

definition uniqueRoster :: "(int, int \<times> int) core" where
  "uniqueRoster = memCore uniqueAgeIndex idIndex rosterEntries"

text \<open>Pages of one record by age, tokens wanted.\<close>

definition twinsQuery :: "(int, int \<times> int) query" where
  "twinsQuery =
     \<lparr>trans = 0, table = ''people'', index = ''age'', keyRange = allKeys,
      wantValues = True, limit = 1, unique = False, reverse = False, wantPageToken = True,
      pageToken = None\<rparr>"

text \<open>The second page of \<open>twinsQuery\<close>: the token of its first response.\<close>

definition twinsSecondPage :: "(int, int \<times> int) query" where
  "twinsSecondPage = twinsQuery\<lparr>pageToken := Some (LastKeyToken (JKey 5) (JKey 1))\<rparr>"

text \<open>Pages of ten primary keys by age, tokens wanted.\<close>

definition keysQuery :: "(int, int \<times> int) query" where
  "keysQuery =
     \<lparr>trans = 0, table = ''people'', index = ''age'', keyRange = allKeys,
      wantValues = False, limit = 10, unique = False, reverse = False, wantPageToken = True,
      pageToken = None\<rparr>"

text \<open>A range above every age in the tables.\<close>

definition farQuery :: "(int, int \<times> int) query" where
  "farQuery = twinsQuery\<lparr>keyRange := allKeys\<lparr>lower := JKey 100\<rparr>, limit := 5\<rparr>"

text \<open>The second page over \<open>siblings\<close>, five records a page, no token wanted.\<close>

definition siblingsSecondPage :: "(int, int \<times> int) query" where
  "siblingsSecondPage =
     twinsQuery\<lparr>limit := 5, wantPageToken := False,
       pageToken := Some (LastKeyToken (JKey 5) (JKey 1))\<rparr>"

text \<open>Descending pages of two records.\<close>

definition reverseQuery :: "(int, int \<times> int) query" where
  "reverseQuery = twinsQuery\<lparr>reverse := True, limit := 2\<rparr>"

text \<open>Pages of two records.\<close>

definition pairQuery :: "(int, int \<times> int) query" where
  "pairQuery = twinsQuery\<lparr>limit := 2\<rparr>"

text \<open>A page of no record, with and without a token wanted.\<close>

definition zeroQuery :: "(int, int \<times> int) query" where
  "zeroQuery = twinsQuery\<lparr>limit := 0\<rparr>"

definition zeroQueryNoToken :: "(int, int \<times> int) query" where
  "zeroQueryNoToken = twinsQuery\<lparr>limit := 0, wantPageToken := False\<rparr>"

text \<open>The far range, descending.\<close>

definition farReverseQuery :: "(int, int \<times> int) query" where
  "farReverseQuery = farQuery\<lparr>reverse := True\<rparr>"

text \<open>Twenty-five records whose key is their primary key, read ten primary keys a page
  through the primary-key index; the second and third page carry the tokens of the
  pages before them.\<close>

definition ledgerEntries :: "(int, int \<times> int) entry list" where
  "ledgerEntries =
     [person 1 1, person 2 2, person 3 3, person 4 4, person 5 5, person 6 6, person 7 7,
      person 8 8, person 9 9, person 10 10, person 11 11, person 12 12, person 13 13,
      person 14 14, person 15 15, person 16 16, person 17 17, person 18 18, person 19 19,
      person 20 20, person 21 21, person 22 22, person 23 23, person 24 24, person 25 25]"

definition ledger :: "(int, int \<times> int) core" where
  "ledger = memCore idIndex idIndex ledgerEntries"

definition ledgerQuery :: "(int, int \<times> int) query" where
  "ledgerQuery =
     \<lparr>trans = 0, table = ''people'', index = '':id'', keyRange = allKeys,
      wantValues = False, limit = 10, unique = False, reverse = False, wantPageToken = True,
      pageToken = None\<rparr>"

definition ledgerQuery2 :: "(int, int \<times> int) query" where
  "ledgerQuery2 = ledgerQuery\<lparr>pageToken := Some (LastKeyToken (JKey 10) JNull)\<rparr>"

definition ledgerQuery3 :: "(int, int \<times> int) query" where
  "ledgerQuery3 = ledgerQuery\<lparr>pageToken := Some (LastKeyToken (JKey 20) JNull)\<rparr>"

lemmas engine_defs = engineQueryRange_def useCursor_def bulkScan_def cursorFallback_def
  cursorIterate_def engineOpenCursor_def afterLastKey_def iterateCallback_def
  fallbackCallback_def pushed_def jsIndex_def seekPast_def OffsetCursor_def bulkQuery_def

lemmas store_defs = memCore_def memGetAll_def memOpenCursor_def memGet_def matching_def
  inRange_def fullScan_def

lemmas example_defs = twins_def siblings_def tagged_def roster_def uniqueRoster_def
  rosterEntries_def twinsQuery_def twinsSecondPage_def keysQuery_def farQuery_def
  siblingsSecondPage_def reverseQuery_def pairQuery_def zeroQuery_def zeroQueryNoToken_def
  farReverseQuery_def ledgerEntries_def ledger_def ledgerQuery_def ledgerQuery2_def
  ledgerQuery3_def
  person_def ageIndex_def uniqueAgeIndex_def multiAgeIndex_def idIndex_def allKeys_def

section \<open>Facts about the paths\<close>

text \<open>The engine's resolver only ever opens cursors.\<close>

lemma engineOpenCursor_calls:
  "c \<in> set (snd (engineOpenCursor next q)) \<Longrightarrow> \<not> isGetAll c"
  by (auto simp: engineOpenCursor_def Let_def split: option.splits token.splits)

lemma cursorIterate_calls:
  "snd (cursorIterate next q) = snd (engineOpenCursor next q)"
  by (auto simp: cursorIterate_def split: prod.splits option.splits)

text \<open>The fallback iteration over entries that do not pass \<open>lastKey\<close>, fewer than the
  limit allows, followed by one that does: it stops on that entry and reports
  \<^verbatim>\<open>{passed: true}\<close>.\<close>

lemma start_fallback_passed:
  assumes "\<forall>x\<in>set pre. \<not> 0 < cmp next (ekey x) lastKey"
    and "int (length acc) + int (length pre) < limit q"
    and "0 < cmp next (ekey e) lastKey"
  shows "start (fallbackCallback next q lastKey) (pre @ e # post) acc
         = (Some \<lparr>passed = True, lastPrimaryKey = JNull, primaryKey = JNull\<rparr>, post,
            acc @ map (pushed q) pre)"
  using assms
proof (induction pre arbitrary: acc)
  case Nil
  then show ?case by (simp add: fallbackCallback_def)
next
  case (Cons x pre)
  have "start (fallbackCallback next q lastKey) ((x # pre) @ e # post) acc
        = start (fallbackCallback next q lastKey) (pre @ e # post) (acc @ [pushed q x])"
    using Cons.prems by (simp add: fallbackCallback_def Let_def)
  also have "\<dots> = (Some \<lparr>passed = True, lastPrimaryKey = JNull, primaryKey = JNull\<rparr>, post,
            (acc @ [pushed q x]) @ map (pushed q) pre)"
    using Cons.prems by (intro Cons.IH) auto
  finally show ?case by simp
qed

lemma bulkScan_empty:
  assumes "getAll next q = []" and "0 < limit q"
  shows "fst (bulkScan next q) = \<lparr>result = [], nextPageToken = None, partial = False\<rparr>"
  using assms by (simp add: bulkScan_def Let_def)

lemma cursorIterate_empty:
  assumes "fst (engineOpenCursor next q) = None \<or> fst (engineOpenCursor next q) = Some []"
  shows "fst (cursorIterate next q) = \<lparr>result = [], nextPageToken = None, partial = False\<rparr>"
proof (cases "engineOpenCursor next q")
  case (Pair c calls)
  then show ?thesis using assms by (auto simp: cursorIterate_def)
qed

lemma cursorFallback_empty:
  assumes "fst (engineOpenCursor next q) = None \<or> fst (engineOpenCursor next q) = Some []"
  shows "fst (cursorFallback next q k) = \<lparr>result = [], nextPageToken = None, partial = False\<rparr>"
proof (cases "engineOpenCursor next q")
  case (Pair c calls)
  then show ?thesis using assms by (auto simp: cursorFallback_def)
qed

section \<open>Round-trip completeness\<close>

text \<open>
  Claim C1: for every finite ordered record set, every range and every fixed limit
  \<open>k > 0\<close>, calling \<^verbatim>\<open>queryRange\<close> again and again with the previous response's token,
  until a response has none, yields the concatenation equal to a single unbounded scan of
  the range, for every combination of the flags.

  The engine does not do this. Over three records that share the indexed key 5, paged one
  record at a time by value on a non-unique index, the first page comes from the bulk
  read with the token (5, primary key 1); the second comes from the fallback iteration,
  which stops on record 2 with the limit reached and emits a token without a primary
  key; the third call then reads past key 5 and finds nothing. Record 3 is never
  returned.
\<close>

theorem paginate_twins_loses_record:
  "paginate (Suc (Suc (Suc 0))) twins twinsQuery = Some [JRec (1, 5), JRec (2, 5)]
   \<and> fullScan twins twinsQuery = [JRec (1, 5), JRec (2, 5), JRec (3, 5)]"
  by (simp add: engine_defs store_defs example_defs Let_def)

section \<open>Tokens of the bulk path\<close>

text \<open>
  Claim C2: on the bulk path, with the limit reached, only primary keys requested and an
  index that is neither unique nor the primary key, the token's \<^verbatim>\<open>lastKey\<close> is the
  indexed key of the last entry's record (found by \<^verbatim>\<open>get\<close> and
  \<^verbatim>\<open>extractKey\<close>) and its \<^verbatim>\<open>lastPrimaryKey\<close> is that entry's primary key.

  The engine fills the two fields the other way round. Over twelve people aged 21 to 32,
  the first page of ten primary keys by age ends with primary key 10, whose record has
  age 30; the token holds 10 as \<^verbatim>\<open>lastKey\<close> and 30 as \<^verbatim>\<open>lastPrimaryKey\<close>.
\<close>

theorem keys_only_token_swapped:
  "\<not> useCursor roster keysQuery
   \<and> engineQueryRange roster keysQuery
     = (\<lparr>result = [JKey 1, JKey 2, JKey 3, JKey 4, JKey 5, JKey 6, JKey 7, JKey 8, JKey 9,
                   JKey 10],
         nextPageToken = Some (LastKeyToken (JKey 10) (JKey 30)), partial = False\<rparr>,
        [GetAll keysQuery, Get 0 ''people'' [JKey 10]])
   \<and> extractKey ageIndex (jsIndex (get roster 0 ''people'' [JKey 10]) 0) = JKey 30"
  by (simp add: engine_defs store_defs example_defs Let_def)

text \<open>
  Claim C3: when the bulk path reaches the limit and emits a last-key token, and the
  index is unique or is the primary key, the token carries no \<^verbatim>\<open>lastPrimaryKey\<close>,
  whether values or keys were requested.

  With keys requested the engine tests only for the primary-key index. Over the same
  twelve people under a unique age index, the token of the first page of ten primary keys
  carries a \<^verbatim>\<open>lastPrimaryKey\<close>.
\<close>

theorem unique_index_token_has_primary_key:
  "isUnique (indexSpec (tableIndexLookup uniqueRoster (table keysQuery) (index keysQuery)))
   \<and> \<not> useCursor uniqueRoster keysQuery
   \<and> int (length (result (fst (engineQueryRange uniqueRoster keysQuery)))) = limit keysQuery
   \<and> nextPageToken (fst (engineQueryRange uniqueRoster keysQuery))
     = Some (LastKeyToken (JKey 10) (JKey 30))"
  by (simp add: engine_defs store_defs example_defs Let_def)

text \<open>
  Claim C9: on the bulk path, with exactly \<open>limit\<close> entries returned and a token wanted,
  if the index is multi-valued, or values were requested and the index has zero key
  length, the response's token is an offset token whose count is \<open>limit\<close>.

  The bulk path is the one taken when the limit is not 0, \<open>useCursor\<close> is false and the
  inbound token, if any, has no primary key.
\<close>

theorem bulk_offset_token:
  assumes "limit q \<noteq> 0" and "\<not> useCursor next q"
    and "case pageToken q of None \<Rightarrow> True | Some pt \<Rightarrow> tokLastPrimaryKey pt = JNull"
    and "int (length (getAll next (bulkQuery q))) = limit q"
    and "wantPageToken q"
    and "multiEntry (indexSpec (tableIndexLookup next (table q) (index q)))
         \<or> (wantValues q \<and> keyLength (tableIndexLookup next (table q) (index q)) = 0)"
  shows "engineQueryRange next q
         = (\<lparr>result = getAll next (bulkQuery q),
             nextPageToken = Some (OffsetToken (limit q)), partial = False\<rparr>,
            [GetAll (bulkQuery q)])"
  using assms
  by (auto simp: engineQueryRange_def bulkScan_def afterLastKey_def bulkQuery_def Let_def
      split: option.splits)

text \<open>C9 at a table under a multi-valued index, two records a page.\<close>

theorem bulk_offset_token_witness:
  "limit pairQuery \<noteq> 0
   \<and> \<not> useCursor tagged pairQuery
   \<and> pageToken pairQuery = None
   \<and> int (length (getAll tagged (bulkQuery pairQuery))) = limit pairQuery
   \<and> wantPageToken pairQuery
   \<and> multiEntry (indexSpec (tableIndexLookup tagged (table pairQuery) (index pairQuery)))
   \<and> engineQueryRange tagged pairQuery
     = (\<lparr>result = [JRec (1, 5), JRec (2, 5)], nextPageToken = Some (OffsetToken 2),
         partial = False\<rparr>, [GetAll pairQuery])"
proof -
  have h: "limit pairQuery \<noteq> 0"
    "\<not> useCursor tagged pairQuery"
    "case pageToken pairQuery of None \<Rightarrow> True | Some pt \<Rightarrow> tokLastPrimaryKey pt = JNull"
    "int (length (getAll tagged (bulkQuery pairQuery))) = limit pairQuery"
    "wantPageToken pairQuery"
    "multiEntry (indexSpec (tableIndexLookup tagged (table pairQuery) (index pairQuery)))
     \<or> (wantValues pairQuery
         \<and> keyLength (tableIndexLookup tagged (table pairQuery) (index pairQuery)) = 0)"
    by (simp_all add: engine_defs store_defs example_defs Let_def)
  have g: "getAll tagged (bulkQuery pairQuery) = [JRec (1, 5), JRec (2, 5)]"
    "bulkQuery pairQuery = pairQuery" "pageToken pairQuery = None"
    "multiEntry (indexSpec (tableIndexLookup tagged (table pairQuery) (index pairQuery)))"
    by (simp_all add: engine_defs store_defs example_defs Let_def)
  show ?thesis using bulk_offset_token[OF h] h(1,2,4,5) g by simp
qed

section \<open>The fallback for duplicate keys\<close>

text \<open>
  Claim C4: in the fallback for a last-key token that carries a primary key, when the
  limit is reached before the duplicates of \<^verbatim>\<open>lastKey\<close> run out and a token is wanted,
  the response's token is a last-key token whose \<^verbatim>\<open>lastPrimaryKey\<close> is the primary
  key of the entry the iteration stopped on.

  The iteration stops with \<^verbatim>\<open>{lastPrimaryKey: cursor.primaryKey}\<close> and the engine
  then reads the property \<^verbatim>\<open>primaryKey\<close> of that object, which it never wrote. On the
  second page over \<open>twins\<close> the iteration stops on record 2 and the token has no
  primary key.
\<close>

theorem fallback_token_lacks_primary_key:
  "\<not> useCursor twins twinsSecondPage
   \<and> fst (engineOpenCursor twins twinsSecondPage) = Some [person 2 5, person 3 5]
   \<and> start (fallbackCallback twins twinsSecondPage (JKey 5)) [person 2 5, person 3 5] []
     = (Some \<lparr>passed = False, lastPrimaryKey = JKey 2, primaryKey = JNull\<rparr>,
        [person 3 5], [JRec (2, 5)])
   \<and> fst (engineQueryRange twins twinsSecondPage)
     = \<lparr>result = [JRec (2, 5)], nextPageToken = Some (LastKeyToken (JKey 5) JNull),
        partial = False\<rparr>"
  by (simp add: engine_defs store_defs example_defs Let_def)

text \<open>
  Claim C5: in the fallback for a last-key token that carries a primary key, when an entry
  whose key is strictly past \<^verbatim>\<open>lastKey\<close> by the store's comparator is met before the
  limit is reached, the response has \<^verbatim>\<open>partial\<close> set and a last-key token without a
  primary key, whether or not a token was wanted.

  The cursor the resolver returns delivers \<open>pre\<close>, none of it past \<open>lastKey\<close> and
  shorter than the limit, then \<open>e\<close>, which is past it. Nothing is assumed of
  \<open>wantPageToken q\<close>.
\<close>

theorem fallback_passed:
  assumes "limit q \<noteq> 0" and "\<not> useCursor next q"
    and "pageToken q = Some (LastKeyToken lastKey lpk)" and "lpk \<noteq> JNull"
    and "fst (engineOpenCursor next q) = Some (pre @ e # post)"
    and "\<forall>x\<in>set pre. \<not> 0 < cmp next (ekey x) lastKey"
    and "int (length pre) < limit q"
    and "0 < cmp next (ekey e) lastKey"
  shows "fst (engineQueryRange next q)
         = \<lparr>result = map (pushed q) pre, nextPageToken = Some (LastKeyToken lastKey JNull),
            partial = True\<rparr>"
proof -
  have s: "start (fallbackCallback next q lastKey) (pre @ e # post) []
         = (Some \<lparr>passed = True, lastPrimaryKey = JNull, primaryKey = JNull\<rparr>, post,
            [] @ map (pushed q) pre)"
    using assms(6,7,8) by (intro start_fallback_passed) auto
  obtain calls where oc: "engineOpenCursor next q = (Some (pre @ e # post), calls)"
    using assms(5) by (cases "engineOpenCursor next q") auto
  have "engineQueryRange next q = cursorFallback next q lastKey"
    using assms(1-4) by (simp add: engineQueryRange_def)
  then show ?thesis using s oc by (simp add: cursorFallback_def)
qed

text \<open>C5 on the second page over \<open>siblings\<close>, with no token wanted: record 2 shares
  the key 5, record 3 is past it.\<close>

theorem fallback_passed_witness:
  "limit siblingsSecondPage \<noteq> 0
   \<and> \<not> useCursor siblings siblingsSecondPage
   \<and> pageToken siblingsSecondPage = Some (LastKeyToken (JKey 5) (JKey 1))
   \<and> fst (engineOpenCursor siblings siblingsSecondPage) = Some ([person 2 5] @ person 3 7 # [])
   \<and> \<not> 0 < cmp siblings (ekey (person 2 5)) (JKey 5)
   \<and> 0 < cmp siblings (ekey (person 3 7)) (JKey 5)
   \<and> \<not> wantPageToken siblingsSecondPage
   \<and> fst (engineQueryRange siblings siblingsSecondPage)
     = \<lparr>result = [JRec (2, 5)], nextPageToken = Some (LastKeyToken (JKey 5) JNull),
        partial = True\<rparr>"
proof -
  have h: "limit siblingsSecondPage \<noteq> 0"
    "\<not> useCursor siblings siblingsSecondPage"
    "pageToken siblingsSecondPage = Some (LastKeyToken (JKey 5) (JKey 1))"
    "JKey (1::int) \<noteq> (JNull :: (int, int \<times> int) jsval)"
    "fst (engineOpenCursor siblings siblingsSecondPage) = Some ([person 2 5] @ person 3 7 # [])"
    "\<forall>x\<in>set [person 2 5]. \<not> 0 < cmp siblings (ekey x) (JKey 5)"
    "int (length [person 2 5]) < limit siblingsSecondPage"
    "0 < cmp siblings (ekey (person 3 7)) (JKey 5)"
    by (simp_all add: engine_defs store_defs example_defs Let_def)
  show ?thesis
    using fallback_passed[OF h] h
    by (simp add: pushed_def store_defs example_defs)
qed

section \<open>Pass-through of the wrapped layer\<close>

text \<open>
  Claim C6: every operation of the wrapped core other than \<^verbatim>\<open>queryRange\<close> behaves as
  the underlying layer's; in particular \<^verbatim>\<open>openCursor\<close> on the returned core yields what
  the underlying layer's \<^verbatim>\<open>openCursor\<close> yields.

  The other members are the underlying layer's, but the returned core's
  \<^verbatim>\<open>openCursor\<close> returns \<^verbatim>\<open>null\<close> for every query, also where the underlying layer
  opens a cursor on three entries.
\<close>

theorem engine_openCursor_null:
  "openCursor (KeyRangePagingEngine twins) twinsQuery = None
   \<and> openCursor twins twinsQuery = Some [person 1 5, person 2 5, person 3 5]
   \<and> getAll (KeyRangePagingEngine twins) = getAll twins
   \<and> get (KeyRangePagingEngine twins) = get twins
   \<and> cmp (KeyRangePagingEngine twins) = cmp twins
   \<and> tableIndexLookup (KeyRangePagingEngine twins) = tableIndexLookup twins"
  by (simp add: KeyRangePagingEngine_def store_defs example_defs)

section \<open>Empty ranges and empty pages\<close>

text \<open>
  Claim C7, as amended: for every query with \<open>limit > 0\<close> over a range with no matching
  entry, the response's result is empty and the response has no token, whether or not a
  token was wanted.

  A range with no matching entry is one on which the bulk read returns nothing and the
  cursor the resolver returns is \<^verbatim>\<open>null\<close> or has no entry left.
\<close>

theorem empty_range:
  assumes "0 < limit q"
    and "fst (engineOpenCursor next q) = None \<or> fst (engineOpenCursor next q) = Some []"
    and "getAll next (bulkQuery q) = []"
  shows "fst (engineQueryRange next q) = \<lparr>result = [], nextPageToken = None, partial = False\<rparr>"
proof (cases "useCursor next q")
  case True
  then have "engineQueryRange next q = cursorIterate next q"
    using assms(1) by (simp add: engineQueryRange_def)
  then show ?thesis using cursorIterate_empty[OF assms(2)] by simp
next
  case nc: False
  show ?thesis
  proof (cases "pageToken q")
    case None
    then have "engineQueryRange next q = bulkScan next q" and "bulkQuery q = q"
      using assms(1) nc by (simp_all add: engineQueryRange_def bulkQuery_def)
    then show ?thesis using bulkScan_empty[of "next" q] assms(1,3) by simp
  next
    case (Some pt)
    show ?thesis
    proof (cases "tokLastPrimaryKey pt = JNull")
      case True
      then have e: "engineQueryRange next q = bulkScan next (afterLastKey q (tokLastKey pt))"
        and b: "bulkQuery q = afterLastKey q (tokLastKey pt)"
        using assms(1) nc Some by (simp_all add: engineQueryRange_def bulkQuery_def)
      have "0 < limit (afterLastKey q (tokLastKey pt))"
        using assms(1) by (simp add: afterLastKey_def)
      then show ?thesis
        using bulkScan_empty[of "next" "afterLastKey q (tokLastKey pt)"] assms(3) e b
        by simp
    next
      case False
      then have "engineQueryRange next q = cursorFallback next q (tokLastKey pt)"
        using assms(1) nc Some by (simp add: engineQueryRange_def)
      then show ?thesis using cursorFallback_empty[OF assms(2)] by simp
    qed
  qed
qed

text \<open>C7 as amended, on a range above every key of \<open>twins\<close>, with a token wanted.\<close>

theorem empty_range_witness:
  "0 < limit farQuery
   \<and> fst (engineOpenCursor twins farQuery) = None
   \<and> getAll twins (bulkQuery farQuery) = []
   \<and> wantPageToken farQuery
   \<and> fst (engineQueryRange twins farQuery)
     = \<lparr>result = [], nextPageToken = None, partial = False\<rparr>"
proof -
  have h: "0 < limit farQuery"
    "fst (engineOpenCursor twins farQuery) = None
     \<or> fst (engineOpenCursor twins farQuery) = Some []"
    "getAll twins (bulkQuery farQuery) = []"
    by (simp_all add: engine_defs store_defs example_defs)
  have g: "fst (engineOpenCursor twins farQuery) = None" "wantPageToken farQuery"
    by (simp_all add: engine_defs store_defs example_defs)
  show ?thesis using empty_range[OF h] h(1,3) g by simp
qed

text \<open>
  Claim C7 as stated, that a cursor token is returned exactly when one is wanted, fails:
  with a token wanted and a positive limit, over a range with no matching entry, the
  response has no token, on the bulk path and on the cursor path.
\<close>

theorem empty_range_token_counterexample:
  "0 < limit farQuery
   \<and> wantPageToken farQuery
   \<and> fullScan twins farQuery = []
   \<and> \<not> useCursor twins farQuery
   \<and> result (fst (engineQueryRange twins farQuery)) = []
   \<and> nextPageToken (fst (engineQueryRange twins farQuery)) = None
   \<and> 0 < limit farReverseQuery
   \<and> wantPageToken farReverseQuery
   \<and> fullScan twins farReverseQuery = []
   \<and> useCursor twins farReverseQuery
   \<and> result (fst (engineQueryRange twins farReverseQuery)) = []
   \<and> nextPageToken (fst (engineQueryRange twins farReverseQuery)) = None"
  by (simp add: engine_defs store_defs example_defs Let_def)

text \<open>
  Claim C10: for every query with \<open>limit = 0\<close> the result is empty; with a token wanted a
  cursor token is returned and no entry is consumed from the store; with no token wanted
  the response has no token.

  The cursor in the token is the one the resolver returned, on which no iteration was
  started, and the resolver's calls are the only storage calls; for a query without an
  inbound token it is the cursor the wrapped layer opened. With no token wanted the store
  is not called at all.
\<close>

theorem limit_zero:
  assumes "limit q = 0"
  shows "result (fst (engineQueryRange next q)) = []
       \<and> (wantPageToken q \<longrightarrow>
            nextPageToken (fst (engineQueryRange next q))
              = Some (CursorToken (fst (engineOpenCursor next q)))
            \<and> snd (engineQueryRange next q) = snd (engineOpenCursor next q))
       \<and> (wantPageToken q \<and> pageToken q = None \<longrightarrow>
            nextPageToken (fst (engineQueryRange next q)) = Some (CursorToken (openCursor next q))
            \<and> snd (engineQueryRange next q) = [OpenCursor q])
       \<and> (\<not> wantPageToken q \<longrightarrow>
            nextPageToken (fst (engineQueryRange next q)) = None
            \<and> snd (engineQueryRange next q) = [])"
  using assms by (simp add: engineQueryRange_def engineOpenCursor_def split: prod.splits)

text \<open>C10 over \<open>twins\<close>: the token's cursor still has all three entries to deliver.\<close>

theorem limit_zero_witness:
  "limit zeroQuery = 0
   \<and> wantPageToken zeroQuery
   \<and> result (fst (engineQueryRange twins zeroQuery)) = []
   \<and> nextPageToken (fst (engineQueryRange twins zeroQuery))
     = Some (CursorToken (Some [person 1 5, person 2 5, person 3 5]))
   \<and> snd (engineQueryRange twins zeroQuery) = [OpenCursor zeroQuery]
   \<and> limit zeroQueryNoToken = 0
   \<and> \<not> wantPageToken zeroQueryNoToken
   \<and> result (fst (engineQueryRange twins zeroQueryNoToken)) = []
   \<and> nextPageToken (fst (engineQueryRange twins zeroQueryNoToken)) = None
   \<and> snd (engineQueryRange twins zeroQueryNoToken) = []"
proof -
  have h: "limit zeroQuery = 0" "limit zeroQueryNoToken = 0"
    by (simp_all add: example_defs)
  have w: "wantPageToken zeroQuery" "pageToken zeroQuery = None"
    "\<not> wantPageToken zeroQueryNoToken"
    by (simp_all add: example_defs)
  have oc: "openCursor twins zeroQuery = Some [person 1 5, person 2 5, person 3 5]"
    by (simp add: store_defs example_defs)
  have a: "result (fst (engineQueryRange twins zeroQuery)) = []
      \<and> nextPageToken (fst (engineQueryRange twins zeroQuery))
        = Some (CursorToken (openCursor twins zeroQuery))
      \<and> snd (engineQueryRange twins zeroQuery) = [OpenCursor zeroQuery]"
    using limit_zero[OF h(1), of twins] w(1,2) by blast
  have b: "result (fst (engineQueryRange twins zeroQueryNoToken)) = []
      \<and> nextPageToken (fst (engineQueryRange twins zeroQueryNoToken)) = None
      \<and> snd (engineQueryRange twins zeroQueryNoToken) = []"
    using limit_zero[OF h(2), of twins] w(3) by blast
  show ?thesis using a b h w(1,3) by (simp only: oc simp_thms)
qed

section \<open>Choice of the path\<close>

text \<open>
  Claim C8: for every query with \<^verbatim>\<open>reverse\<close> set, \<^verbatim>\<open>queryRange\<close> selects the cursor
  path and never performs a bulk read, whatever the other flags, the index and the inbound
  token.

  \<open>useCursor\<close> holds; with a limit other than 0 the response is the cursor path's; and
  no storage call of the query is a \<^verbatim>\<open>getAll\<close>, also when the limit is 0.
\<close>

theorem reverse_uses_cursor:
  assumes "reverse q"
  shows "useCursor next q
       \<and> (limit q \<noteq> 0 \<longrightarrow> engineQueryRange next q = cursorIterate next q)
       \<and> (\<forall>c \<in> set (snd (engineQueryRange next q)). \<not> isGetAll c)"
proof -
  have u: "useCursor next q" using assms by (simp add: useCursor_def)
  have p: "limit q \<noteq> 0 \<longrightarrow> engineQueryRange next q = cursorIterate next q"
    using u by (simp add: engineQueryRange_def)
  have "\<not> isGetAll c" if "c \<in> set (snd (engineQueryRange next q))" for c
  proof (cases "limit q = 0")
    case True
    then show ?thesis using that engineOpenCursor_calls[of c "next" q]
      by (auto simp: engineQueryRange_def split: if_splits prod.splits)
  next
    case False
    then show ?thesis using that u engineOpenCursor_calls[of c "next" q]
      by (simp add: engineQueryRange_def cursorIterate_calls)
  qed
  then show ?thesis using u p by blast
qed

text \<open>C8 over \<open>twins\<close>, descending, two records a page.\<close>

theorem reverse_uses_cursor_witness:
  "reverse reverseQuery
   \<and> useCursor twins reverseQuery
   \<and> engineQueryRange twins reverseQuery = cursorIterate twins reverseQuery
   \<and> snd (engineQueryRange twins reverseQuery) = [OpenCursor reverseQuery]
   \<and> result (fst (engineQueryRange twins reverseQuery)) = [JRec (3, 5), JRec (2, 5)]"
proof -
  have h: "reverse reverseQuery" by (simp add: example_defs)
  have l: "limit reverseQuery \<noteq> 0" by (simp add: example_defs)
  have "snd (cursorIterate twins reverseQuery) = [OpenCursor reverseQuery]
      \<and> result (fst (cursorIterate twins reverseQuery)) = [JRec (3, 5), JRec (2, 5)]"
    by (simp add: engine_defs store_defs example_defs Let_def)
  then show ?thesis using reverse_uses_cursor[OF h, of twins] h l by simp
qed


section \<open>Further properties of the paths\<close>

subsection \<open>The cursor path pages without loss\<close>

text \<open>One run of the cursor path's callback from a result shorter than the limit: it
  either exhausts the cursor or stops when the result reaches the limit.\<close>

lemma start_iterate:
  assumes "int (length acc) < limit q"
  shows "start (iterateCallback q) es acc
         = (if int (length acc) + int (length es) < limit q
            then (None, [], acc @ map (pushed q) es)
            else (Some True, drop (nat (limit q) - length acc) es,
                  acc @ map (pushed q) (take (nat (limit q) - length acc) es)))"
  using assms
proof (induction es arbitrary: acc)
  case Nil
  then show ?case by simp
next
  case (Cons e es)
  show ?case
  proof (cases "int (length acc) + 1 = limit q")
    case True
    then have n: "nat (limit q) - length acc = Suc 0" by linarith
    show ?thesis using True by (simp add: iterateCallback_def Let_def n)
  next
    case False
    then have lt: "int (length (acc @ [pushed q e])) < limit q" using Cons.prems by simp
    have n: "nat (limit q) - length acc = Suc (nat (limit q) - Suc (length acc))"
      using lt by simp
    have step: "start (iterateCallback q) (e # es) acc
          = start (iterateCallback q) es (acc @ [pushed q e])"
      using False by (simp add: iterateCallback_def Let_def)
    have ih: "start (iterateCallback q) es (acc @ [pushed q e])
          = (if int (length acc) + 1 + int (length es) < limit q
             then (None, [], acc @ pushed q e # map (pushed q) es)
             else (Some True, drop (nat (limit q) - Suc (length acc)) es,
                   acc @ pushed q e # map (pushed q) (take (nat (limit q) - Suc (length acc)) es)))"
      using Cons.IH[OF lt] by (simp add: add.assoc)
    show ?thesis unfolding step ih n by (simp add: add.assoc)
  qed
qed

lemma cursorIterate_page:
  assumes "0 < limit q" and "fst (engineOpenCursor next q) = Some es" and "wantPageToken q"
  shows "fst (cursorIterate next q)
         = (if int (length es) < limit q
            then \<lparr>result = map (pushed q) es, nextPageToken = None, partial = False\<rparr>
            else \<lparr>result = map (pushed q) (take (nat (limit q)) es),
                  nextPageToken = Some (CursorToken (Some (drop (nat (limit q)) es))),
                  partial = False\<rparr>)"
proof -
  obtain calls where oc: "engineOpenCursor next q = (Some es, calls)"
    using assms(2) by (cases "engineOpenCursor next q") auto
  have "int (length ([] :: ('a, 'b) jsval list)) < limit q" using assms(1) by simp
  from start_iterate[OF this, of es]
  show ?thesis using oc assms(3) by (simp add: cursorIterate_def)
qed

lemma pushed_token [simp]: "pushed (q\<lparr>pageToken := t\<rparr>) = pushed q"
  by (rule ext) (simp add: pushed_def)

lemma paginate_cursor_token:
  assumes "0 < limit q" and "wantPageToken q"
  shows "length es < n * nat (limit q)
         \<Longrightarrow> paginate n next (q\<lparr>pageToken := Some (CursorToken (Some es))\<rparr>)
             = Some (map (pushed q) es)"
proof (induction n arbitrary: es)
  case 0
  then show ?case by simp
next
  case (Suc n)
  let ?q = "q\<lparr>pageToken := Some (CursorToken (Some es))\<rparr>"
  have u: "useCursor next ?q" by (simp add: useCursor_def)
  have l: "0 < limit ?q" "wantPageToken ?q" using assms by simp_all
  have oc: "fst (engineOpenCursor next ?q) = Some es" by (simp add: engineOpenCursor_def)
  have e: "engineQueryRange next ?q = cursorIterate next ?q"
    using u l by (simp add: engineQueryRange_def)
  note page = cursorIterate_page[OF l(1) oc l(2)]
  show ?case
  proof (cases "int (length es) < limit q")
    case True
    then show ?thesis using e page by simp
  next
    case False
    have "length (drop (nat (limit q)) es) < n * nat (limit q)"
      using Suc.prems False assms(1) by simp
    from Suc.IH[OF this] show ?thesis using e page False
      by (simp add: Let_def flip: map_append)
  qed
qed

text \<open>
  On the cursor path with tokens wanted, the pages of a query without inbound token add up
  to the single scan of its cursor: no entry is skipped or repeated. \<open>n\<close> bounds the
  number of pages after the first.
\<close>

theorem cursor_path_round_trip:
  assumes "0 < limit q" and "wantPageToken q" and "pageToken q = None"
    and "useCursor next q"
    and "length (case openCursor next q of None \<Rightarrow> [] | Some es \<Rightarrow> es) < n * nat (limit q)"
  shows "paginate (Suc n) next q = Some (fullScan next q)"
proof (cases "openCursor next q")
  case None
  then have "fst (engineOpenCursor next q) = None"
    using assms(3) by (simp add: engineOpenCursor_def)
  then have "fst (cursorIterate next q) = \<lparr>result = [], nextPageToken = None, partial = False\<rparr>"
    by (cases "engineOpenCursor next q") (auto simp: cursorIterate_def)
  moreover have "engineQueryRange next q = cursorIterate next q"
    using assms(1,4) by (simp add: engineQueryRange_def)
  moreover have "q\<lparr>pageToken := None\<rparr> = q" using assms(3) by simp
  ultimately show ?thesis using None by (simp add: fullScan_def)
next
  case (Some es)
  then have oc: "fst (engineOpenCursor next q) = Some es"
    using assms(3) by (simp add: engineOpenCursor_def)
  have e: "engineQueryRange next q = cursorIterate next q"
    using assms(1,4) by (simp add: engineQueryRange_def)
  have q: "q\<lparr>pageToken := None\<rparr> = q" using assms(3) by simp
  note page = cursorIterate_page[OF assms(1) oc assms(2)]
  have len: "length es < n * nat (limit q)" using assms(5) Some by simp
  show ?thesis
  proof (cases "int (length es) < limit q")
    case True
    then show ?thesis using e page Some q by (simp add: fullScan_def)
  next
    case False
    have "length (drop (nat (limit q)) es) < n * nat (limit q)" using len by simp
    from paginate_cursor_token[OF assms(1,2) this, of "next"]
    show ?thesis using e page False Some q
      by (simp add: Let_def fullScan_def flip: map_append)
  qed
qed

text \<open>Descending over \<open>twins\<close>, two records a page.\<close>

theorem cursor_path_round_trip_witness:
  "0 < limit reverseQuery \<and> wantPageToken reverseQuery \<and> pageToken reverseQuery = None
   \<and> useCursor twins reverseQuery
   \<and> openCursor twins reverseQuery = Some [person 3 5, person 2 5, person 1 5]
   \<and> paginate (Suc 2) twins reverseQuery = Some [JRec (3, 5), JRec (2, 5), JRec (1, 5)]"
proof -
  have h: "0 < limit reverseQuery" "wantPageToken reverseQuery" "pageToken reverseQuery = None"
    "useCursor twins reverseQuery"
    "length (case openCursor twins reverseQuery of None \<Rightarrow> [] | Some es \<Rightarrow> es)
       < 2 * nat (limit reverseQuery)"
    by (simp_all add: engine_defs store_defs example_defs)
  have g: "openCursor twins reverseQuery = Some [person 3 5, person 2 5, person 1 5]"
    "fullScan twins reverseQuery = [JRec (3, 5), JRec (2, 5), JRec (1, 5)]"
    by (simp_all add: engine_defs store_defs example_defs)
  show ?thesis using cursor_path_round_trip[OF h] h(1-4) g by simp
qed

subsection \<open>Tokens the bulk path builds\<close>

lemma bulk_path:
  assumes "limit q \<noteq> 0" and "\<not> useCursor next q"
    and "case pageToken q of None \<Rightarrow> True | Some pt \<Rightarrow> tokLastPrimaryKey pt = JNull"
  shows "engineQueryRange next q = bulkScan next (bulkQuery q)"
  using assms by (auto simp: engineQueryRange_def bulkQuery_def split: option.splits)

lemma bulkQuery_fields [simp]:
  "table (bulkQuery q) = table q" "index (bulkQuery q) = index q" "limit (bulkQuery q) = limit q"
  "wantValues (bulkQuery q) = wantValues q" "wantPageToken (bulkQuery q) = wantPageToken q"
  "trans (bulkQuery q) = trans q"
  by (simp_all add: bulkQuery_def afterLastKey_def split: option.splits)

text \<open>
  With primary keys requested on an index that is not the primary key, the token's
  \<^verbatim>\<open>lastKey\<close> is the last entry as returned, a primary key, and its
  \<^verbatim>\<open>lastPrimaryKey\<close> is \<^verbatim>\<open>extractKey\<close> of the record fetched for it, whatever
  the index's uniqueness.
\<close>

theorem bulk_keys_only_token:
  assumes "limit q \<noteq> 0" and "\<not> useCursor next q"
    and "case pageToken q of None \<Rightarrow> True | Some pt \<Rightarrow> tokLastPrimaryKey pt = JNull"
    and "\<not> int (length (getAll next (bulkQuery q))) < limit q"
    and "wantPageToken q" and "\<not> wantValues q"
    and "\<not> multiEntry (indexSpec (tableIndexLookup next (table q) (index q)))"
    and "\<not> isPrimaryKey (indexSpec (tableIndexLookup next (table q) (index q)))"
  shows "nextPageToken (fst (engineQueryRange next q))
         = Some (LastKeyToken (jsIndex (getAll next (bulkQuery q)) (limit q - 1))
             (extractKey (tableIndexLookup next (table q) (index q))
                (jsIndex (get next (trans q) (table q)
                   [jsIndex (getAll next (bulkQuery q)) (limit q - 1)]) 0)))"
  using assms(4-8) unfolding bulk_path[OF assms(1-3)]
  by (simp add: bulkScan_def Let_def)

text \<open>The first page of ten primary keys over \<open>roster\<close>.\<close>

theorem bulk_keys_only_token_witness:
  "limit keysQuery \<noteq> 0 \<and> \<not> useCursor roster keysQuery \<and> pageToken keysQuery = None
   \<and> int (length (getAll roster (bulkQuery keysQuery))) = limit keysQuery
   \<and> wantPageToken keysQuery \<and> \<not> wantValues keysQuery
   \<and> jsIndex (getAll roster (bulkQuery keysQuery)) (limit keysQuery - 1) = JKey 10
   \<and> get roster (trans keysQuery) (table keysQuery) [JKey 10] = [JRec (10, 30)]
   \<and> nextPageToken (fst (engineQueryRange roster keysQuery))
     = Some (LastKeyToken (JKey 10) (JKey 30))"
proof -
  have h: "limit keysQuery \<noteq> 0" "\<not> useCursor roster keysQuery"
    "case pageToken keysQuery of None \<Rightarrow> True | Some pt \<Rightarrow> tokLastPrimaryKey pt = JNull"
    "\<not> int (length (getAll roster (bulkQuery keysQuery))) < limit keysQuery"
    "wantPageToken keysQuery" "\<not> wantValues keysQuery"
    "\<not> multiEntry (indexSpec (tableIndexLookup roster (table keysQuery) (index keysQuery)))"
    "\<not> isPrimaryKey (indexSpec (tableIndexLookup roster (table keysQuery) (index keysQuery)))"
    by (simp_all add: engine_defs store_defs example_defs Let_def)
  have g: "pageToken keysQuery = None"
    "int (length (getAll roster (bulkQuery keysQuery))) = limit keysQuery"
    "jsIndex (getAll roster (bulkQuery keysQuery)) (limit keysQuery - 1) = JKey 10"
    "get roster (trans keysQuery) (table keysQuery) [JKey 10] = [JRec (10, 30)]"
    "extractKey (tableIndexLookup roster (table keysQuery) (index keysQuery)) (JRec (10, 30))
       = JKey 30"
    by (simp_all add: engine_defs store_defs example_defs Let_def)
  show ?thesis using bulk_keys_only_token[OF h] h(1,2,5,6) g by (simp add: jsIndex_def)
qed

text \<open>
  With values requested, the token's \<^verbatim>\<open>lastKey\<close> is the indexed key of the last
  record, and its \<^verbatim>\<open>lastPrimaryKey\<close> is absent for a unique index and the record's
  primary key otherwise.
\<close>

theorem bulk_values_token:
  assumes "limit q \<noteq> 0" and "\<not> useCursor next q"
    and "case pageToken q of None \<Rightarrow> True | Some pt \<Rightarrow> tokLastPrimaryKey pt = JNull"
    and "\<not> int (length (getAll next (bulkQuery q))) < limit q"
    and "wantPageToken q" and "wantValues q"
    and "\<not> multiEntry (indexSpec (tableIndexLookup next (table q) (index q)))"
  shows "nextPageToken (fst (engineQueryRange next q))
         = Some (LastKeyToken
             (extractKey (tableIndexLookup next (table q) (index q))
                (jsIndex (getAll next (bulkQuery q)) (limit q - 1)))
             (if isUnique (indexSpec (tableIndexLookup next (table q) (index q))) then JNull
              else extractKey (tableIndexLookup next (table q) '':id'')
                     (jsIndex (getAll next (bulkQuery q)) (limit q - 1))))"
proof -
  have "keyLength (tableIndexLookup next (table q) (index q)) \<noteq> 0"
    using assms(2) by (auto simp: useCursor_def Let_def)
  then show ?thesis
    using assms(4-7) unfolding bulk_path[OF assms(1-3)]
    by (simp add: bulkScan_def Let_def)
qed

text \<open>The first page of one record over \<open>twins\<close>.\<close>

theorem bulk_values_token_witness:
  "limit twinsQuery \<noteq> 0 \<and> \<not> useCursor twins twinsQuery \<and> pageToken twinsQuery = None
   \<and> int (length (getAll twins (bulkQuery twinsQuery))) = limit twinsQuery
   \<and> wantPageToken twinsQuery \<and> wantValues twinsQuery
   \<and> nextPageToken (fst (engineQueryRange twins twinsQuery))
     = Some (LastKeyToken (JKey 5) (JKey 1))"
proof -
  have h: "limit twinsQuery \<noteq> 0" "\<not> useCursor twins twinsQuery"
    "case pageToken twinsQuery of None \<Rightarrow> True | Some pt \<Rightarrow> tokLastPrimaryKey pt = JNull"
    "\<not> int (length (getAll twins (bulkQuery twinsQuery))) < limit twinsQuery"
    "wantPageToken twinsQuery" "wantValues twinsQuery"
    "\<not> multiEntry (indexSpec (tableIndexLookup twins (table twinsQuery) (index twinsQuery)))"
    by (simp_all add: engine_defs store_defs example_defs Let_def)
  have g: "pageToken twinsQuery = None"
    "int (length (getAll twins (bulkQuery twinsQuery))) = limit twinsQuery"
    "jsIndex (getAll twins (bulkQuery twinsQuery)) (limit twinsQuery - 1) = JRec (1, 5)"
    "extractKey (tableIndexLookup twins (table twinsQuery) (index twinsQuery)) (JRec (1, 5))
       = JKey 5"
    "extractKey (tableIndexLookup twins (table twinsQuery) '':id'') (JRec (1, 5)) = JKey 1"
    "\<not> isUnique (indexSpec (tableIndexLookup twins (table twinsQuery) (index twinsQuery)))"
    by (simp_all add: engine_defs store_defs example_defs Let_def)
  show ?thesis using bulk_values_token[OF h] h(1,2,5,6) g by simp
qed

subsection \<open>The fallback when the limit is reached\<close>

lemma start_fallback_limit:
  assumes "\<forall>x\<in>set (pre @ [e]). \<not> 0 < cmp next (ekey x) lastKey"
    and "int (length acc) + int (length pre) + 1 = limit q"
  shows "start (fallbackCallback next q lastKey) (pre @ e # post) acc
         = (Some \<lparr>passed = False, lastPrimaryKey = eprimaryKey e, primaryKey = JNull\<rparr>, post,
            acc @ map (pushed q) (pre @ [e]))"
  using assms
proof (induction pre arbitrary: acc)
  case Nil
  then show ?case by (simp add: fallbackCallback_def Let_def)
next
  case (Cons x pre)
  have "start (fallbackCallback next q lastKey) ((x # pre) @ e # post) acc
        = start (fallbackCallback next q lastKey) (pre @ e # post) (acc @ [pushed q x])"
    using Cons.prems by (simp add: fallbackCallback_def Let_def)
  also have "\<dots> = (Some \<lparr>passed = False, lastPrimaryKey = eprimaryKey e, primaryKey = JNull\<rparr>,
            post, (acc @ [pushed q x]) @ map (pushed q) (pre @ [e]))"
    using Cons.prems by (intro Cons.IH) auto
  finally show ?case by simp
qed

text \<open>
  When the fallback iteration reaches the limit on an entry \<open>e\<close> that is not past
  \<^verbatim>\<open>lastKey\<close>, it resolves with \<open>e\<close>'s primary key under \<^verbatim>\<open>lastPrimaryKey\<close>, and
  the token built from the resolution has no primary key.
\<close>

theorem fallback_limit_token:
  assumes "limit q \<noteq> 0" and "\<not> useCursor next q"
    and "pageToken q = Some (LastKeyToken lastKey lpk)" and "lpk \<noteq> JNull"
    and "fst (engineOpenCursor next q) = Some (pre @ e # post)"
    and "\<forall>x\<in>set (pre @ [e]). \<not> 0 < cmp next (ekey x) lastKey"
    and "int (length pre) + 1 = limit q"
    and "wantPageToken q"
  shows "fst (engineQueryRange next q)
         = \<lparr>result = map (pushed q) (pre @ [e]),
            nextPageToken = Some (LastKeyToken lastKey JNull), partial = False\<rparr>"
proof -
  have s: "start (fallbackCallback next q lastKey) (pre @ e # post) []
         = (Some \<lparr>passed = False, lastPrimaryKey = eprimaryKey e, primaryKey = JNull\<rparr>, post,
            [] @ map (pushed q) (pre @ [e]))"
    using assms(6,7) by (intro start_fallback_limit) auto
  obtain calls where oc: "engineOpenCursor next q = (Some (pre @ e # post), calls)"
    using assms(5) by (cases "engineOpenCursor next q") auto
  have "engineQueryRange next q = cursorFallback next q lastKey"
    using assms(1-4) by (simp add: engineQueryRange_def)
  then show ?thesis using s oc assms(8) by (simp add: cursorFallback_def)
qed

text \<open>The second page over \<open>twins\<close>: the iteration stops on record 2.\<close>

theorem fallback_limit_token_witness:
  "limit twinsSecondPage \<noteq> 0 \<and> \<not> useCursor twins twinsSecondPage
   \<and> pageToken twinsSecondPage = Some (LastKeyToken (JKey 5) (JKey 1))
   \<and> fst (engineOpenCursor twins twinsSecondPage) = Some ([] @ person 2 5 # [person 3 5])
   \<and> \<not> 0 < cmp twins (ekey (person 2 5)) (JKey 5)
   \<and> wantPageToken twinsSecondPage
   \<and> eprimaryKey (person 2 5) = JKey 2
   \<and> fst (engineQueryRange twins twinsSecondPage)
     = \<lparr>result = [JRec (2, 5)], nextPageToken = Some (LastKeyToken (JKey 5) JNull),
        partial = False\<rparr>"
proof -
  have h: "limit twinsSecondPage \<noteq> 0" "\<not> useCursor twins twinsSecondPage"
    "pageToken twinsSecondPage = Some (LastKeyToken (JKey 5) (JKey 1))"
    "JKey (1::int) \<noteq> (JNull :: (int, int \<times> int) jsval)"
    "fst (engineOpenCursor twins twinsSecondPage) = Some ([] @ person 2 5 # [person 3 5])"
    "\<forall>x\<in>set ([] @ [person 2 5]). \<not> 0 < cmp twins (ekey x) (JKey 5)"
    "int (length ([] :: (int, int \<times> int) entry list)) + 1 = limit twinsSecondPage"
    "wantPageToken twinsSecondPage"
    by (simp_all add: engine_defs store_defs example_defs Let_def)
  show ?thesis
    using fallback_limit_token[OF h] h
    by (simp add: pushed_def store_defs example_defs)
qed

subsection \<open>Paging the primary key\<close>

text \<open>
  The spec's example: primary keys 1 to 25, ten a page, keys only, on the primary-key
  index. The pages are 1 to 10 with token 10, 11 to 20 with token 20, and 21 to 25 with
  no token.
\<close>

theorem primary_key_pages:
  "fst (engineQueryRange ledger ledgerQuery)
     = \<lparr>result = [JKey 1, JKey 2, JKey 3, JKey 4, JKey 5, JKey 6, JKey 7, JKey 8, JKey 9,
                  JKey 10],
        nextPageToken = Some (LastKeyToken (JKey 10) JNull), partial = False\<rparr>
   \<and> fst (engineQueryRange ledger ledgerQuery2)
     = \<lparr>result = [JKey 11, JKey 12, JKey 13, JKey 14, JKey 15, JKey 16, JKey 17, JKey 18,
                  JKey 19, JKey 20],
        nextPageToken = Some (LastKeyToken (JKey 20) JNull), partial = False\<rparr>
   \<and> fst (engineQueryRange ledger ledgerQuery3)
     = \<lparr>result = [JKey 21, JKey 22, JKey 23, JKey 24, JKey 25],
        nextPageToken = None, partial = False\<rparr>"
  by (simp add: engine_defs store_defs example_defs Let_def)


end
